theory Spec2Isabelle
  imports Complex_Main
begin

section \<open>JavaScript values\<close>

text \<open>
  The cache stores values of type \<^verbatim>\<open>unknown\<close>; the orchestrator stores whatever
  \<^verbatim>\<open>response.json()\<close> resolved to. The TypeScript annotations are erased at run time, so
  the model keeps the values dynamic: the JSON values, and \<^verbatim>\<open>undefined\<close>. A number is the
  value of the parsed double (no NaN: JSON has none). An object is the list of its
  properties, looked up by name. Strings are ASCII.
\<close>

datatype jsval =
    JUndefined
  | JNull
  | JBool bool
  | JNumber real
  | JString string
  | JArray "jsval list"
  | JObject "(string \<times> jsval) list"

text \<open>What \<^verbatim>\<open>if (v)\<close> and \<^verbatim>\<open>v || w\<close> test: every value is truthy except
  \<^verbatim>\<open>undefined\<close>, \<^verbatim>\<open>null\<close>, \<^verbatim>\<open>false\<close>, \<^verbatim>\<open>0\<close> and the empty string.\<close>

fun truthy :: "jsval \<Rightarrow> bool" where
  "truthy JUndefined = False"
| "truthy JNull = False"
| "truthy (JBool b) = b"
| "truthy (JNumber x) = (x \<noteq> 0)"
| "truthy (JString s) = (s \<noteq> [])"
| "truthy (JArray xs) = True"
| "truthy (JObject kvs) = True"

datatype js_error = Error string | TypeError | SyntaxError

section \<open>The cache store (utils/cache)\<close>

text \<open>
  \<^verbatim>\<open>interface CacheEntry<T> { data: T; expiresAt: number; }\<close>
  Times are milliseconds since the epoch, as \<^verbatim>\<open>Date.now()\<close> returns them; the model
  passes the reading of the clock to each operation that reads it.
\<close>

record CacheEntry =
  data :: jsval
  expiresAt :: int

text \<open>The handle \<^verbatim>\<open>setInterval\<close> returns: an object (always truthy), named by its id.\<close>

datatype Timeout = Timeout nat

text \<open>
  \<^verbatim>\<open>private cache: Map<string, CacheEntry<unknown>> = new Map();\<close>
  \<^verbatim>\<open>private cleanupInterval: ReturnType<typeof setInterval> | null = null;\<close>
\<close>

record MemoryCache =
  cache :: "string \<rightharpoonup> CacheEntry"
  cleanupInterval :: "Timeout option"

text \<open>The timers of the runtime: the active intervals (id and period), and the next id.\<close>

record timers =
  intervals :: "(nat \<times> int) list"
  next_id :: nat

definition setInterval :: "timers \<Rightarrow> int \<Rightarrow> Timeout \<times> timers" where
  "setInterval rt period =
     (Timeout (next_id rt),
      rt\<lparr>intervals := (next_id rt, period) # intervals rt, next_id := Suc (next_id rt)\<rparr>)"

fun clearInterval :: "timers \<Rightarrow> Timeout \<Rightarrow> timers" where
  "clearInterval rt (Timeout h) = rt\<lparr>intervals := filter (\<lambda>(i, p). i \<noteq> h) (intervals rt)\<rparr>"

text \<open>Whether the interval behind a handle is still scheduled.\<close>

fun running :: "timers \<Rightarrow> Timeout \<Rightarrow> bool" where
  "running rt (Timeout h) = (h \<in> fst ` set (intervals rt))"

text \<open>
  \<^verbatim>\<open>constructor() { this.cleanupInterval = setInterval(() => this.cleanup(), 60_000); }\<close>
\<close>

definition MemoryCache_new :: "timers \<Rightarrow> MemoryCache \<times> timers" where
  "MemoryCache_new rt =
     (let (h, rt') = setInterval rt 60000
      in (\<lparr>cache = Map.empty, cleanupInterval = Some h\<rparr>, rt'))"

text \<open>
  \<^verbatim>\<open>get<T>(key)\<close>: the result and the cache after the call (an expired entry is deleted).
  \<^verbatim>\<open>null\<close> is the result for a key with no entry and for an expired one.
\<close>

definition cache_get :: "MemoryCache \<Rightarrow> string \<Rightarrow> int \<Rightarrow> jsval \<times> MemoryCache" where
  "cache_get mc key now =
     (case cache mc key of
        None \<Rightarrow> (JNull, mc)
      | Some entry \<Rightarrow>
          if now > expiresAt entry then (JNull, mc\<lparr>cache := (cache mc)(key := None)\<rparr>)
          else (data entry, mc))"

text \<open>\<^verbatim>\<open>set<T>(key, data, ttlMs)\<close>, at clock reading \<open>now\<close>.\<close>

definition cache_set :: "MemoryCache \<Rightarrow> string \<Rightarrow> jsval \<Rightarrow> int \<Rightarrow> int \<Rightarrow> MemoryCache" where
  "cache_set mc key d ttlMs now =
     mc\<lparr>cache := (cache mc)(key \<mapsto> \<lparr>data = d, expiresAt = now + ttlMs\<rparr>)\<rparr>"

definition cache_delete :: "MemoryCache \<Rightarrow> string \<Rightarrow> MemoryCache" where
  "cache_delete mc key = mc\<lparr>cache := (cache mc)(key := None)\<rparr>"

definition cache_clear :: "MemoryCache \<Rightarrow> MemoryCache" where
  "cache_clear mc = mc\<lparr>cache := Map.empty\<rparr>"

text \<open>
  \<^verbatim>\<open>cleanup()\<close>: the loop visits every entry once and deletes the expired ones; which
  entry it visits first does not matter, so the model decides each key on its own.
\<close>

definition cleanup :: "MemoryCache \<Rightarrow> int \<Rightarrow> MemoryCache" where
  "cleanup mc now =
     mc\<lparr>cache := (\<lambda>key. case cache mc key of
                             None \<Rightarrow> None
                           | Some entry \<Rightarrow> if now > expiresAt entry then None else Some entry)\<rparr>"

text \<open>\<^verbatim>\<open>destroy()\<close>: the cache and the runtime's timers after the call.\<close>

definition destroy :: "MemoryCache \<Rightarrow> timers \<Rightarrow> MemoryCache \<times> timers" where
  "destroy mc rt =
     (let (mc1, rt1) =
            (case cleanupInterval mc of
               Some h \<Rightarrow> (mc\<lparr>cleanupInterval := None\<rparr>, clearInterval rt h)
             | None \<Rightarrow> (mc, rt))
      in (mc1\<lparr>cache := Map.empty\<rparr>, rt1))"

text \<open>The periodic sweep firing at each of the given clock readings, in order.\<close>

fun sweeps :: "MemoryCache \<Rightarrow> int list \<Rightarrow> MemoryCache" where
  "sweeps mc [] = mc"
| "sweeps mc (s # ss) = sweeps (cleanup mc s) ss"

text \<open>
  \<^verbatim>\<open>export const CACHE_TTL = { LIVE_SCORES: 30_000, SCHEDULE: 5 * 60_000, ... } as const;\<close>
\<close>

record ttl_table =
  LIVE_SCORES :: int
  SCHEDULE :: int
  STANDINGS :: int
  PLAYER_STATS :: int
  GAME_DETAILS :: int

definition CACHE_TTL :: ttl_table where
  "CACHE_TTL = \<lparr>LIVE_SCORES = 30000, SCHEDULE = 5 * 60000, STANDINGS = 5 * 60000,
                PLAYER_STATS = 10 * 60000, GAME_DETAILS = 30000\<rparr>"

section \<open>The upstream client and the fetch orchestrator (services/nhl)\<close>

text \<open>
  What \<^verbatim>\<open>await fetch(url)\<close> does: it rejects (a transport failure), or it resolves to a
  response, of which the code reads \<^verbatim>\<open>ok\<close>, \<^verbatim>\<open>status\<close>, \<^verbatim>\<open>statusText\<close> and
  \<^verbatim>\<open>json()\<close> (which resolves to the parsed body, or rejects).
\<close>

record response =
  ok :: bool
  status :: nat
  statusText :: string
  json :: "js_error + jsval"

datatype fetch_outcome = Rejected js_error | Resolved response

text \<open>A number in a template literal: its decimal digits.\<close>

definition digit_char :: "nat \<Rightarrow> char" where
  "digit_char d = char_of (48 + d)"

function string_of_nat :: "nat \<Rightarrow> string" where
  "string_of_nat n =
     (if n < 10 then [digit_char n] else string_of_nat (n div 10) @ [digit_char (n mod 10)])"
  by pat_completeness auto
termination
  by (relation "measure id") auto

declare string_of_nat.simps [simp del]

definition NHL_API_BASE :: string where
  "NHL_API_BASE = ''https://api-web.nhle.com/v1''"

text \<open>
  The process-wide state the orchestrator works on: the singleton \<^verbatim>\<open>cache\<close>, and the
  log of the URLs given to \<^verbatim>\<open>fetch\<close> so far (the latest first), which counts the upstream
  calls.
\<close>

record world =
  store :: MemoryCache
  requests :: "string list"

text \<open>
  What one call of the orchestrator meets outside the process: the upstream's answer to
  each URL, the value of \<^verbatim>\<open>new Date().toISOString().split('T')[0]\<close> when the call
  starts, the reading of the clock at \<^verbatim>\<open>cache.get\<close>, and the reading at
  \<^verbatim>\<open>cache.set\<close> (after the \<^verbatim>\<open>await\<close>).
\<close>

record env =
  fetch :: "string \<Rightarrow> fetch_outcome"
  today :: string
  t_get :: int
  t_set :: int

text \<open>\<^verbatim>\<open>fetchNHL<T>(endpoint)\<close>: the result (\<open>Inl\<close> what is thrown) and the log.\<close>

definition fetchNHL :: "(string \<Rightarrow> fetch_outcome) \<Rightarrow> string \<Rightarrow> string list
    \<Rightarrow> (js_error + jsval) \<times> string list" where
  "fetchNHL upstream endpoint reqs =
     (let url = NHL_API_BASE @ endpoint
      in (case upstream url of
            Rejected e \<Rightarrow> Inl e
          | Resolved resp \<Rightarrow>
              if \<not> ok resp
              then Inl (Error (''NHL API error: '' @ string_of_nat (status resp) @ '' ''
                                 @ statusText resp))
              else json resp,
          url # reqs))"

definition getLiveScores :: "env \<Rightarrow> world \<Rightarrow> (js_error + jsval) \<times> world" where
  "getLiveScores e w =
     (let cacheKey = ''live-scores:'' @ today e;
          (cached, mc) = cache_get (store w) cacheKey (t_get e)
      in if truthy cached then (Inr cached, w\<lparr>store := mc\<rparr>)
         else (case fetchNHL (fetch e) (''/schedule/'' @ today e) (requests w) of
                 (Inl err, reqs) \<Rightarrow> (Inl err, \<lparr>store = mc, requests = reqs\<rparr>)
               | (Inr d, reqs) \<Rightarrow>
                   (Inr d, \<lparr>store = cache_set mc cacheKey d (LIVE_SCORES CACHE_TTL) (t_set e),
                            requests = reqs\<rparr>)))"

definition getSchedule :: "env \<Rightarrow> string \<Rightarrow> world \<Rightarrow> (js_error + jsval) \<times> world" where
  "getSchedule e date w =
     (let cacheKey = ''schedule:'' @ date;
          (cached, mc) = cache_get (store w) cacheKey (t_get e)
      in if truthy cached then (Inr cached, w\<lparr>store := mc\<rparr>)
         else (case fetchNHL (fetch e) (''/schedule/'' @ date) (requests w) of
                 (Inl err, reqs) \<Rightarrow> (Inl err, \<lparr>store = mc, requests = reqs\<rparr>)
               | (Inr d, reqs) \<Rightarrow>
                   (Inr d, \<lparr>store = cache_set mc cacheKey d (SCHEDULE CACHE_TTL) (t_set e),
                            requests = reqs\<rparr>)))"

definition getGameById :: "env \<Rightarrow> string \<Rightarrow> world \<Rightarrow> (js_error + jsval) \<times> world" where
  "getGameById e gameId w =
     (let cacheKey = ''game:'' @ gameId;
          (cached, mc) = cache_get (store w) cacheKey (t_get e)
      in if truthy cached then (Inr cached, w\<lparr>store := mc\<rparr>)
         else (case fetchNHL (fetch e) (''/gamecenter/'' @ gameId @ ''/landing'') (requests w) of
                 (Inl err, reqs) \<Rightarrow> (Inl err, \<lparr>store = mc, requests = reqs\<rparr>)
               | (Inr d, reqs) \<Rightarrow>
                   (Inr d, \<lparr>store = cache_set mc cacheKey d (GAME_DETAILS CACHE_TTL) (t_set e),
                            requests = reqs\<rparr>)))"

definition getStandings :: "env \<Rightarrow> world \<Rightarrow> (js_error + jsval) \<times> world" where
  "getStandings e w =
     (let currentDate = today e;
          cacheKey = ''standings:'' @ currentDate;
          (cached, mc) = cache_get (store w) cacheKey (t_get e)
      in if truthy cached then (Inr cached, w\<lparr>store := mc\<rparr>)
         else (case fetchNHL (fetch e) (''/standings/'' @ currentDate) (requests w) of
                 (Inl err, reqs) \<Rightarrow> (Inl err, \<lparr>store = mc, requests = reqs\<rparr>)
               | (Inr d, reqs) \<Rightarrow>
                   (Inr d, \<lparr>store = cache_set mc cacheKey d (STANDINGS CACHE_TTL) (t_set e),
                            requests = reqs\<rparr>)))"

definition getPlayerStats :: "env \<Rightarrow> string \<Rightarrow> world \<Rightarrow> (js_error + jsval) \<times> world" where
  "getPlayerStats e playerId w =
     (let cacheKey = ''player:'' @ playerId;
          (cached, mc) = cache_get (store w) cacheKey (t_get e)
      in if truthy cached then (Inr cached, w\<lparr>store := mc\<rparr>)
         else (case fetchNHL (fetch e) (''/player/'' @ playerId @ ''/landing'') (requests w) of
                 (Inl err, reqs) \<Rightarrow> (Inl err, \<lparr>store = mc, requests = reqs\<rparr>)
               | (Inr d, reqs) \<Rightarrow>
                   (Inr d, \<lparr>store = cache_set mc cacheKey d (PLAYER_STATS CACHE_TTL) (t_set e),
                            requests = reqs\<rparr>)))"

subsection \<open>getTeamStats\<close>

text \<open>
  Reading a property \<^verbatim>\<open>v.name\<close>, for the names the code reads (\<^verbatim>\<open>standings\<close>,
  \<^verbatim>\<open>teamAbbrev\<close>, \<^verbatim>\<open>default\<close>; none is a built-in property of an array, a string, a
  number or a boolean): a TypeError on \<^verbatim>\<open>undefined\<close> and \<^verbatim>\<open>null\<close>, the property's value
  on an object that has it, \<^verbatim>\<open>undefined\<close> otherwise.
\<close>

fun property :: "jsval \<Rightarrow> string \<Rightarrow> js_error + jsval" where
  "property JUndefined name = Inl TypeError"
| "property JNull name = Inl TypeError"
| "property (JObject kvs) name = Inr (case map_of kvs name of Some v \<Rightarrow> v | None \<Rightarrow> JUndefined)"
| "property v name = Inr JUndefined"

text \<open>\<^verbatim>\<open>String.prototype.toLowerCase\<close> on ASCII strings.\<close>

definition lower_char :: "char \<Rightarrow> char" where
  "lower_char c =
     (let n = (of_char c :: nat) in if 65 \<le> n \<and> n \<le> 90 then char_of (n + 32) else c)"

definition toLowerCase :: "string \<Rightarrow> string" where
  "toLowerCase s = map lower_char s"

text \<open>\<^verbatim>\<open>t.teamAbbrev.default\<close>\<close>

definition teamAbbrev_default :: "jsval \<Rightarrow> js_error + jsval" where
  "teamAbbrev_default t =
     (case property t ''teamAbbrev'' of Inl err \<Rightarrow> Inl err | Inr a \<Rightarrow> property a ''default'')"

text \<open>
  The callback of \<^verbatim>\<open>find\<close>:
  \<^verbatim>\<open>(t) => t.teamAbbrev.default.toLowerCase() === abbrev.toLowerCase()\<close>.
  Calling \<^verbatim>\<open>toLowerCase\<close> on anything but a string is a TypeError.
\<close>

definition team_matches :: "string \<Rightarrow> jsval \<Rightarrow> js_error + bool" where
  "team_matches abbrev t =
     (case teamAbbrev_default t of
        Inl err \<Rightarrow> Inl err
      | Inr (JString s) \<Rightarrow> Inr (toLowerCase s = toLowerCase abbrev)
      | Inr v \<Rightarrow> Inl TypeError)"

text \<open>\<^verbatim>\<open>Array.prototype.find\<close>: the first element the callback accepts, or \<^verbatim>\<open>undefined\<close>;
  an exception of the callback ends the scan.\<close>

fun array_find :: "(jsval \<Rightarrow> js_error + bool) \<Rightarrow> jsval list \<Rightarrow> js_error + jsval" where
  "array_find f [] = Inr JUndefined"
| "array_find f (t # ts) =
     (case f t of
        Inl err \<Rightarrow> Inl err
      | Inr b \<Rightarrow> if b then Inr t else array_find f ts)"

definition getTeamStats :: "env \<Rightarrow> string \<Rightarrow> world \<Rightarrow> (js_error + jsval) \<times> world" where
  "getTeamStats e abbrev w =
     (case getStandings e w of
        (Inl err, w') \<Rightarrow> (Inl err, w')
      | (Inr standings, w') \<Rightarrow>
          (case property standings ''standings'' of
             Inl err \<Rightarrow> (Inl err, w')
           | Inr (JArray ts) \<Rightarrow>
               (case array_find (team_matches abbrev) ts of
                  Inl err \<Rightarrow> (Inl err, w')
                | Inr team \<Rightarrow> (Inr (if truthy team then team else JNull), w'))
           | Inr v \<Rightarrow> (Inl TypeError, w')))"

subsection \<open>The five cached queries, as one table\<close>

text \<open>
  The five cached functions differ in their key, their endpoint and their TTL only. A
  query names one of them with its parameter; \<open>orchestrate\<close> calls it.
\<close>

datatype query = LiveScores | Schedule string | GameById string | Standings | PlayerStats string

fun orchestrate :: "env \<Rightarrow> query \<Rightarrow> world \<Rightarrow> (js_error + jsval) \<times> world" where
  "orchestrate e LiveScores w = getLiveScores e w"
| "orchestrate e (Schedule date) w = getSchedule e date w"
| "orchestrate e (GameById gameId) w = getGameById e gameId w"
| "orchestrate e Standings w = getStandings e w"
| "orchestrate e (PlayerStats playerId) w = getPlayerStats e playerId w"

text \<open>The \<^verbatim>\<open>cacheKey\<close> of each function, given the day the call starts on.\<close>

fun query_key :: "query \<Rightarrow> string \<Rightarrow> string" where
  "query_key LiveScores day = ''live-scores:'' @ day"
| "query_key (Schedule date) day = ''schedule:'' @ date"
| "query_key (GameById gameId) day = ''game:'' @ gameId"
| "query_key Standings day = ''standings:'' @ day"
| "query_key (PlayerStats playerId) day = ''player:'' @ playerId"

text \<open>The endpoint each function gives to \<^verbatim>\<open>fetchNHL\<close>.\<close>

fun query_endpoint :: "query \<Rightarrow> string \<Rightarrow> string" where
  "query_endpoint LiveScores day = ''/schedule/'' @ day"
| "query_endpoint (Schedule date) day = ''/schedule/'' @ date"
| "query_endpoint (GameById gameId) day = ''/gamecenter/'' @ gameId @ ''/landing''"
| "query_endpoint Standings day = ''/standings/'' @ day"
| "query_endpoint (PlayerStats playerId) day = ''/player/'' @ playerId @ ''/landing''"

definition query_url :: "query \<Rightarrow> string \<Rightarrow> string" where
  "query_url q day = NHL_API_BASE @ query_endpoint q day"

text \<open>The entry of \<^verbatim>\<open>CACHE_TTL\<close> each function gives to \<^verbatim>\<open>cache.set\<close>.\<close>

fun query_ttl :: "query \<Rightarrow> int" where
  "query_ttl LiveScores = LIVE_SCORES CACHE_TTL"
| "query_ttl (Schedule date) = SCHEDULE CACHE_TTL"
| "query_ttl (GameById gameId) = GAME_DETAILS CACHE_TTL"
| "query_ttl Standings = STANDINGS CACHE_TTL"
| "query_ttl (PlayerStats playerId) = PLAYER_STATS CACHE_TTL"

text \<open>The body the five functions share, with the key, the endpoint and the TTL as
  parameters.\<close>

definition read_through :: "env \<Rightarrow> string \<Rightarrow> string \<Rightarrow> int \<Rightarrow> world
    \<Rightarrow> (js_error + jsval) \<times> world" where
  "read_through e cacheKey endpoint ttl w =
     (let (cached, mc) = cache_get (store w) cacheKey (t_get e)
      in if truthy cached then (Inr cached, w\<lparr>store := mc\<rparr>)
         else (case fetchNHL (fetch e) endpoint (requests w) of
                 (Inl err, reqs) \<Rightarrow> (Inl err, \<lparr>store = mc, requests = reqs\<rparr>)
               | (Inr d, reqs) \<Rightarrow>
                   (Inr d, \<lparr>store = cache_set mc cacheKey d ttl (t_set e), requests = reqs\<rparr>)))"

section \<open>Concrete inputs\<close>

text \<open>A cache as the constructor leaves it on a runtime with no timers.\<close>

definition no_timers :: timers where
  "no_timers = \<lparr>intervals = [], next_id = 1\<rparr>"

definition fresh_cache :: MemoryCache where
  "fresh_cache = fst (MemoryCache_new no_timers)"

definition cold :: world where
  "cold = \<lparr>store = fresh_cache, requests = []\<rparr>"

text \<open>A standings document with two teams.\<close>

definition bruins :: jsval where
  "bruins = JObject [(''teamAbbrev'', JObject [(''default'', JString ''BOS'')]),
                      (''wins'', JNumber 30)]"

definition leafs :: jsval where
  "leafs = JObject [(''teamAbbrev'', JObject [(''default'', JString ''TOR'')]),
                     (''wins'', JNumber 28)]"

definition standings_doc :: jsval where
  "standings_doc = JObject [(''standings'', JArray [leafs, bruins])]"

text \<open>Upstreams that answer every URL alike: with that document, with the JSON text
  \<^verbatim>\<open>null\<close>, with status 404.\<close>

definition upstream_doc :: "string \<Rightarrow> fetch_outcome" where
  "upstream_doc url =
     Resolved \<lparr>ok = True, status = 200, statusText = ''OK'', json = Inr standings_doc\<rparr>"

definition upstream_null :: "string \<Rightarrow> fetch_outcome" where
  "upstream_null url =
     Resolved \<lparr>ok = True, status = 200, statusText = ''OK'', json = Inr JNull\<rparr>"

definition upstream_404 :: "string \<Rightarrow> fetch_outcome" where
  "upstream_404 url =
     Resolved \<lparr>ok = False, status = 404, statusText = ''Not Found'', json = Inl SyntaxError\<rparr>"

text \<open>A call on 2024-01-15, at clock reading \<open>t\<close>, the upstream answering after 40 ms.\<close>

definition call_at :: "(string \<Rightarrow> fetch_outcome) \<Rightarrow> int \<Rightarrow> env" where
  "call_at upstream t = \<lparr>fetch = upstream, today = ''2024-01-15'', t_get = t, t_set = t + 40\<rparr>"

text \<open>A call on the given UTC day, at clock reading \<open>t\<close>, the upstream answering after
  40 ms. 2024-01-16T00:00:00Z is the clock reading 1705363200000.\<close>

definition call_on :: "string \<Rightarrow> (string \<Rightarrow> fetch_outcome) \<Rightarrow> int \<Rightarrow> env" where
  "call_on day upstream t = \<lparr>fetch = upstream, today = day, t_get = t, t_set = t + 40\<rparr>"

text \<open>A standings document in which an entry with the abbreviation \<open>"Bos"\<close> comes before
  the one with \<open>"BOS"\<close>, and an upstream that answers with it.\<close>

definition bruins_mixed :: jsval where
  "bruins_mixed = JObject [(''teamAbbrev'', JObject [(''default'', JString ''Bos'')]),
                            (''wins'', JNumber 1)]"

definition standings_dup :: jsval where
  "standings_dup = JObject [(''standings'', JArray [bruins_mixed, bruins])]"

definition upstream_dup :: "string \<Rightarrow> fetch_outcome" where
  "upstream_dup url =
     Resolved \<lparr>ok = True, status = 200, statusText = ''OK'', json = Inr standings_dup\<rparr>"

section \<open>Properties of the cache store\<close>

lemmas concrete_defs = fresh_cache_def MemoryCache_new_def setInterval_def no_timers_def cold_def

lemma cache_get_absent: "cache mc key = None \<Longrightarrow> cache_get mc key now = (JNull, mc)"
  by (simp add: cache_get_def)

lemma cache_get_present:
  "cache mc key = Some entry \<Longrightarrow>
   cache_get mc key now =
     (if now > expiresAt entry then (JNull, cache_delete mc key) else (data entry, mc))"
  by (simp add: cache_get_def cache_delete_def)

lemma cache_get_set:
  "cache_get (cache_set mc key d ttlMs s) key now =
     (if now > s + ttlMs then (JNull, cache_delete mc key) else (d, cache_set mc key d ttlMs s))"
  by (simp add: cache_get_def cache_set_def cache_delete_def)

text \<open>A sweep that fired no later than a read does not change what the read returns.\<close>

lemma fst_cache_get_cleanup:
  "s \<le> now \<Longrightarrow> fst (cache_get (cleanup mc s) key now) = fst (cache_get mc key now)"
  by (simp add: cache_get_def cleanup_def split: option.splits)

lemma fst_cache_get_sweeps:
  "\<forall>s\<in>set ss. s \<le> now \<Longrightarrow>
   fst (cache_get (sweeps mc ss) key now) = fst (cache_get mc key now)"
  by (induction ss arbitrary: mc) (simp_all add: fst_cache_get_cleanup)

subsection \<open>Expiry\<close>

text \<open>
  Claim C1, as the specification states it, has \<open>get\<close> return absent from the moment the
  TTL has elapsed, so that a TTL of 0 hides the entry from every later read. The code
  compares \<^verbatim>\<open>Date.now() > entry.expiresAt\<close>: a read at exactly \<open>expiresAt\<close> still
  returns the value. With a TTL of 0, a read in the millisecond of the \<open>set\<close> returns it.
\<close>

theorem expiry_at_ttl_counterexample:
  "fst (cache_get (cache_set fresh_cache ''k'' (JString ''v'') 0 1000) ''k'' (1000 + 0)) \<noteq> JNull"
  by (simp add: cache_get_set)

text \<open>
  Claim C1, amended: after \<open>set(k, v, t)\<close> at clock reading \<open>s0\<close>, a \<open>get(k)\<close> at
  \<open>s0 + d\<close> returns \<open>v\<close> when \<open>d \<le> t\<close> and \<^verbatim>\<open>null\<close> when \<open>d > t\<close>, whatever sweeps fired
  before the read. So a TTL of 0 leaves the entry readable in the millisecond of the set
  and expired from the next one on.
\<close>

theorem expiry_after_set:
  assumes "\<forall>s\<in>set ss. s \<le> s0 + d"
  shows "(d \<le> t \<longrightarrow> fst (cache_get (sweeps (cache_set mc k v t s0) ss) k (s0 + d)) = v) \<and>
         (d > t \<longrightarrow> fst (cache_get (sweeps (cache_set mc k v t s0) ss) k (s0 + d)) = JNull)"
  using assms by (simp add: fst_cache_get_sweeps cache_get_set)

theorem expiry_after_set_witness:
  "fst (cache_get (sweeps (cache_set fresh_cache ''k'' (JString ''v'') 50 1000) [1010, 1050])
          ''k'' 1050) = JString ''v'' \<and>
   fst (cache_get (sweeps (cache_set fresh_cache ''k'' (JString ''v'') 50 1000) [1010, 1050])
          ''k'' 1051) = JNull"
  using expiry_after_set [of "[1010, 1050]" 1000 50 50 fresh_cache "''k''" "JString ''v''"]
    expiry_after_set [of "[1010, 1050]" 1000 51 50 fresh_cache "''k''" "JString ''v''"]
  by simp

text \<open>
  Claim C2: an entry that is in the map is returned by \<open>get\<close> exactly while
  \<open>now \<le> expiresAt\<close>; once \<open>now > expiresAt\<close>, \<open>get\<close> returns \<^verbatim>\<open>null\<close> although the
  entry was still in the map (and removes it).
\<close>

theorem get_visible_iff_unexpired:
  assumes "cache mc key = Some entry"
  shows "cache_get mc key now =
           (if now \<le> expiresAt entry then (data entry, mc) else (JNull, cache_delete mc key))"
  using assms by (simp add: cache_get_present)

theorem get_visible_iff_unexpired_witness:
  "cache_get (cache_set fresh_cache ''k'' (JString ''v'') 50 1000) ''k'' 1050
     = (JString ''v'', cache_set fresh_cache ''k'' (JString ''v'') 50 1000) \<and>
   fst (cache_get (cache_set fresh_cache ''k'' (JString ''v'') 50 1000) ''k'' 1051) = JNull"
  using get_visible_iff_unexpired [of "cache_set fresh_cache ''k'' (JString ''v'') 50 1000"
      "''k''" "\<lparr>data = JString ''v'', expiresAt = 1050\<rparr>" 1050]
    get_visible_iff_unexpired [of "cache_set fresh_cache ''k'' (JString ''v'') 50 1000"
      "''k''" "\<lparr>data = JString ''v'', expiresAt = 1050\<rparr>" 1051]
  by (simp add: cache_set_def)

subsection \<open>Overwrite, delete, clear, destroy\<close>

text \<open>
  Claim C7: after \<open>set(k, v1, t1)\<close> and then \<open>set(k, v2, t2)\<close> the cache is the one the
  second \<open>set\<close> alone would have left, so no operation can tell that \<open>v1\<close> was ever
  stored; and \<open>get(k)\<close> returns \<open>v2\<close> until \<open>t2\<close> has elapsed from the second set,
  whatever sweeps fired before the read.
\<close>

theorem overwrite_last_write_wins:
  assumes "\<forall>s\<in>set ss. s \<le> now"
  shows "cache_set (cache_set mc k v1 t1 s1) k v2 t2 s2 = cache_set mc k v2 t2 s2 \<and>
         (now \<le> s2 + t2 \<longrightarrow>
            fst (cache_get (sweeps (cache_set (cache_set mc k v1 t1 s1) k v2 t2 s2) ss) k now)
              = v2) \<and>
         (now > s2 + t2 \<longrightarrow>
            fst (cache_get (sweeps (cache_set (cache_set mc k v1 t1 s1) k v2 t2 s2) ss) k now)
              = JNull)"
  using assms by (simp add: fst_cache_get_sweeps cache_get_set) (simp add: cache_set_def)

theorem overwrite_last_write_wins_witness:
  "fst (cache_get (sweeps (cache_set (cache_set fresh_cache ''k'' (JString ''old'') 900 1000)
                             ''k'' (JString ''new'') 50 1010) [1020]) ''k'' 1060)
     = JString ''new'' \<and>
   fst (cache_get (sweeps (cache_set (cache_set fresh_cache ''k'' (JString ''old'') 900 1000)
                             ''k'' (JString ''new'') 50 1010) [1020]) ''k'' 1061)
     = JNull"
  using overwrite_last_write_wins [of "[1020]" 1060 fresh_cache "''k''" "JString ''old''" 900
      1000 "JString ''new''" 50 1010]
    overwrite_last_write_wins [of "[1020]" 1061 fresh_cache "''k''" "JString ''old''" 900
      1000 "JString ''new''" 50 1010]
  by auto

text \<open>
  Claim C8: after \<open>delete(k)\<close>, \<open>get(k)\<close> returns \<^verbatim>\<open>null\<close> at every clock reading (so
  whatever TTL the entry had left); \<open>delete\<close> of a key with no entry leaves the cache as it
  was; after \<open>clear()\<close>, \<open>get\<close> returns \<^verbatim>\<open>null\<close> for every key. The operations are total:
  none can raise.
\<close>

theorem delete_clear_absent:
  "cache_get (cache_delete mc k) k now = (JNull, cache_delete mc k) \<and>
   (cache mc k = None \<longrightarrow> cache_delete mc k = mc) \<and>
   cache_get (cache_clear mc) k' now = (JNull, cache_clear mc)"
  by (simp add: cache_get_def cache_delete_def cache_clear_def fun_upd_idem)

theorem delete_clear_absent_witness:
  "cache_delete fresh_cache ''k'' = fresh_cache \<and>
   fst (cache_get (cache_delete (cache_set fresh_cache ''k'' (JString ''v'') 50 1000) ''k'')
          ''k'' 1000) = JNull \<and>
   fst (cache_get (cache_clear (cache_set fresh_cache ''k'' (JString ''v'') 50 1000))
          ''k'' 1000) = JNull"
  using delete_clear_absent [of fresh_cache "''k''" 1000 "''k''"]
    delete_clear_absent [of "cache_set fresh_cache ''k'' (JString ''v'') 50 1000" "''k''" 1000
      "''k''"]
  by (simp add: concrete_defs)

text \<open>
  Claim C9: \<open>destroy()\<close>, in any state of the cache and of the runtime's timers, leaves
  the map empty and \<open>cleanupInterval\<close> null, with the interval the cache held no longer
  scheduled; a second \<open>destroy()\<close> right after changes nothing. The operation is total.
\<close>

theorem destroy_idempotent:
  "cache (fst (destroy mc rt)) = Map.empty \<and>
   cleanupInterval (fst (destroy mc rt)) = None \<and>
   (\<forall>h. cleanupInterval mc = Some h \<longrightarrow> \<not> running (snd (destroy mc rt)) h) \<and>
   destroy (fst (destroy mc rt)) (snd (destroy mc rt)) = destroy mc rt"
proof (cases "cleanupInterval mc")
  case None
  then show ?thesis by (simp add: destroy_def)
next
  case (Some h)
  then show ?thesis by (cases h) (auto simp add: destroy_def)
qed

theorem destroy_idempotent_witness:
  "running (snd (MemoryCache_new no_timers)) (Timeout 1) \<and>
   cleanupInterval fresh_cache = Some (Timeout 1) \<and>
   \<not> running (snd (destroy fresh_cache (snd (MemoryCache_new no_timers)))) (Timeout 1) \<and>
   intervals (snd (destroy fresh_cache (snd (MemoryCache_new no_timers)))) = []"
  using destroy_idempotent [of fresh_cache "snd (MemoryCache_new no_timers)"]
  by (simp add: concrete_defs destroy_def)

section \<open>Properties of the fetch orchestrator\<close>

text \<open>Each of the five cached functions is the shared body at its row of the table.\<close>

lemma orchestrate_read_through:
  "orchestrate e q w =
     read_through e (query_key q (today e)) (query_endpoint q (today e)) (query_ttl q) w"
  by (cases q)
    (simp_all add: getLiveScores_def getSchedule_def getGameById_def getStandings_def
      getPlayerStats_def read_through_def Let_def split_def)

lemma fetchNHL_log: "snd (fetchNHL up ep reqs) = (NHL_API_BASE @ ep) # reqs"
  by (simp add: fetchNHL_def Let_def)

lemma fetchNHL_rejected:
  "up (NHL_API_BASE @ ep) = Rejected err \<Longrightarrow> fst (fetchNHL up ep reqs) = Inl err"
  by (simp add: fetchNHL_def Let_def)

lemma fetchNHL_not_ok:
  "up (NHL_API_BASE @ ep) = Resolved r \<Longrightarrow> \<not> ok r \<Longrightarrow>
   fst (fetchNHL up ep reqs) =
     Inl (Error (''NHL API error: '' @ string_of_nat (status r) @ '' '' @ statusText r))"
  by (simp add: fetchNHL_def Let_def)

lemma fetchNHL_ok:
  "up (NHL_API_BASE @ ep) = Resolved r \<Longrightarrow> ok r \<Longrightarrow> fst (fetchNHL up ep reqs) = json r"
  by (simp add: fetchNHL_def Let_def)

lemma read_through_hit:
  "truthy (fst (cache_get (store w) key (t_get e))) \<Longrightarrow>
   read_through e key ep ttl w =
     (Inr (fst (cache_get (store w) key (t_get e))),
      w\<lparr>store := snd (cache_get (store w) key (t_get e))\<rparr>)"
  by (simp add: read_through_def split_def Let_def)

lemma read_through_miss_fail:
  assumes "\<not> truthy (fst (cache_get (store w) key (t_get e)))"
    and "fst (fetchNHL (fetch e) ep (requests w)) = Inl err"
  shows "read_through e key ep ttl w =
     (Inl err, \<lparr>store = snd (cache_get (store w) key (t_get e)),
                requests = (NHL_API_BASE @ ep) # requests w\<rparr>)"
proof -
  have "fetchNHL (fetch e) ep (requests w) = (Inl err, (NHL_API_BASE @ ep) # requests w)"
    using assms(2) fetchNHL_log [of "fetch e" ep "requests w"]
    by (cases "fetchNHL (fetch e) ep (requests w)") simp
  with assms(1) show ?thesis
    by (simp add: read_through_def split_def Let_def)
qed

lemma read_through_miss_ok:
  assumes "\<not> truthy (fst (cache_get (store w) key (t_get e)))"
    and "fst (fetchNHL (fetch e) ep (requests w)) = Inr d"
  shows "read_through e key ep ttl w =
     (Inr d, \<lparr>store = cache_set (snd (cache_get (store w) key (t_get e))) key d ttl (t_set e),
              requests = (NHL_API_BASE @ ep) # requests w\<rparr>)"
proof -
  have "fetchNHL (fetch e) ep (requests w) = (Inr d, (NHL_API_BASE @ ep) # requests w)"
    using assms(2) fetchNHL_log [of "fetch e" ep "requests w"]
    by (cases "fetchNHL (fetch e) ep (requests w)") simp
  with assms(1) show ?thesis
    by (simp add: read_through_def split_def Let_def)
qed

lemma read_through_miss_log:
  assumes "\<not> truthy (fst (cache_get (store w) key (t_get e)))"
  shows "requests (snd (read_through e key ep ttl w)) = (NHL_API_BASE @ ep) # requests w"
proof (cases "fst (fetchNHL (fetch e) ep (requests w))")
  case (Inl err)
  with assms show ?thesis by (simp add: read_through_miss_fail)
next
  case (Inr d)
  with assms show ?thesis by (simp add: read_through_miss_ok)
qed




lemma query_key_same_day:
  "(q = LiveScores \<or> q = Standings \<longrightarrow> day' = day) \<Longrightarrow> query_key q day' = query_key q day"
  by (cases q) simp_all

subsection \<open>Read-through\<close>

text \<open>
  Claim C3, as the specification states it, promises that the second call makes no
  upstream call, for every fetched value and every second call with the same parameters
  before the TTL elapses. It fails in two ways. The hit test is
  \<^verbatim>\<open>if (cached) return cached\<close>: when the upstream answers with the JSON text \<^verbatim>\<open>null\<close>,
  the value is stored, and the second \<open>getSchedule\<close> fetches again. And the keys of
  \<open>getStandings\<close> and \<open>getLiveScores\<close> hold the UTC day of the call: a \<open>getStandings()\<close>
  at 23:59:59.900 followed by one at 00:00:00.010 reads another key, and fetches again.
\<close>

theorem falsy_document_refetched_counterexample:
  "length (requests (snd (getSchedule (call_at upstream_null 1000) ''2024-01-15'' cold))) = 1 \<and>
   length (requests (snd (getSchedule (call_at upstream_null 1040) ''2024-01-15''
      (snd (getSchedule (call_at upstream_null 1000) ''2024-01-15'' cold))))) = 2 \<and>
   length (requests (snd (getStandings (call_on ''2024-01-15'' upstream_doc 1705363199900)
      cold))) = 1 \<and>
   length (requests (snd (getStandings (call_on ''2024-01-16'' upstream_doc 1705363200010)
      (snd (getStandings (call_on ''2024-01-15'' upstream_doc 1705363199900) cold))))) = 2"
  by (simp add: getSchedule_def getStandings_def call_at_def call_on_def upstream_null_def
      upstream_doc_def standings_doc_def concrete_defs cache_get_def cache_set_def fetchNHL_def
      Let_def)

text \<open>
  Claim C3, amended: on an empty cache, a call of any of the five cached functions makes
  exactly one upstream call; when that call succeeds with the document \<open>v\<close>, the function
  returns \<open>v\<close> and stores it under its key with its TTL; and when \<open>v\<close> is truthy (as every
  object and array is), a second call for the same parameters (for live scores and
  standings: on the same UTC day) whose cache read comes no later than the entry's expiry
  makes no upstream call, changes nothing and returns \<open>v\<close>.
\<close>

theorem read_through_on_miss:
  assumes "cache (store w) = Map.empty"
  shows "requests (snd (orchestrate e1 q w)) = query_url q (today e1) # requests w \<and>
         (fetch e1 (query_url q (today e1)) = Resolved r \<and> ok r \<and> json r = Inr v \<longrightarrow>
            fst (orchestrate e1 q w) = Inr v \<and>
            cache (store (snd (orchestrate e1 q w))) (query_key q (today e1))
              = Some \<lparr>data = v, expiresAt = t_set e1 + query_ttl q\<rparr> \<and>
            (truthy v \<and> (q = LiveScores \<or> q = Standings \<longrightarrow> today e2 = today e1) \<and>
             t_get e2 \<le> t_set e1 + query_ttl q \<longrightarrow>
               orchestrate e2 q (snd (orchestrate e1 q w))
                 = (Inr v, snd (orchestrate e1 q w))))"
proof -
  let ?key = "query_key q (today e1)" and ?ep = "query_endpoint q (today e1)"
  have get: "cache_get (store w) ?key (t_get e1) = (JNull, store w)"
    using assms by (simp add: cache_get_absent)
  then have miss: "\<not> truthy (fst (cache_get (store w) ?key (t_get e1)))"
    by simp
  have log: "requests (snd (orchestrate e1 q w)) = query_url q (today e1) # requests w"
    using miss by (simp add: orchestrate_read_through read_through_miss_log query_url_def)
  have rest: "fst (orchestrate e1 q w) = Inr v \<and>
            cache (store (snd (orchestrate e1 q w))) ?key
              = Some \<lparr>data = v, expiresAt = t_set e1 + query_ttl q\<rparr> \<and>
            (truthy v \<and> (q = LiveScores \<or> q = Standings \<longrightarrow> today e2 = today e1) \<and>
             t_get e2 \<le> t_set e1 + query_ttl q \<longrightarrow>
               orchestrate e2 q (snd (orchestrate e1 q w))
                 = (Inr v, snd (orchestrate e1 q w)))"
    if up: "fetch e1 (query_url q (today e1)) = Resolved r" "ok r" "json r = Inr v"
  proof -
    have "fst (fetchNHL (fetch e1) ?ep (requests w)) = Inr v"
      using up by (simp add: fetchNHL_ok query_url_def)
    then have first: "orchestrate e1 q w =
        (Inr v, \<lparr>store = cache_set (store w) ?key v (query_ttl q) (t_set e1),
                 requests = (NHL_API_BASE @ ?ep) # requests w\<rparr>)"
      using miss get by (simp add: orchestrate_read_through read_through_miss_ok)
    have second: "orchestrate e2 q (snd (orchestrate e1 q w)) = (Inr v, snd (orchestrate e1 q w))"
      if "truthy v" "q = LiveScores \<or> q = Standings \<longrightarrow> today e2 = today e1"
        "t_get e2 \<le> t_set e1 + query_ttl q"
    proof -
      have "query_key q (today e2) = ?key"
        using that(2) by (rule query_key_same_day)
      with that(1,3) first show ?thesis
        by (simp add: orchestrate_read_through read_through_hit cache_get_set)
    qed
    from first second show ?thesis
      by (simp add: cache_set_def)
  qed
  from log rest show ?thesis by blast
qed

theorem read_through_on_miss_witness:
  "cache (store cold) = Map.empty \<and>
   fst (orchestrate (call_at upstream_doc 1000) Standings cold) = Inr standings_doc \<and>
   requests (snd (orchestrate (call_at upstream_doc 1000) Standings cold))
     = [''https://api-web.nhle.com/v1/standings/2024-01-15''] \<and>
   cache (store (snd (orchestrate (call_at upstream_doc 1000) Standings cold)))
       ''standings:2024-01-15''
     = Some \<lparr>data = standings_doc, expiresAt = 301040\<rparr> \<and>
   orchestrate (call_at upstream_404 301040) Standings
       (snd (orchestrate (call_at upstream_doc 1000) Standings cold))
     = (Inr standings_doc, snd (orchestrate (call_at upstream_doc 1000) Standings cold)) \<and>
   orchestrate (call_on ''2024-01-16'' upstream_404 2000) (Schedule ''2024-01-15'')
       (snd (orchestrate (call_at upstream_doc 1000) (Schedule ''2024-01-15'') cold))
     = (Inr standings_doc,
        snd (orchestrate (call_at upstream_doc 1000) (Schedule ''2024-01-15'') cold))"
proof -
  have e: "cache (store cold) = Map.empty"
    by (simp add: concrete_defs)
  have t: "truthy standings_doc" "requests cold = []"
    by (simp_all add: standings_doc_def cold_def)
  show ?thesis
    using e t read_through_on_miss [OF e, of "call_at upstream_doc 1000" Standings
        "\<lparr>ok = True, status = 200, statusText = ''OK'', json = Inr standings_doc\<rparr>"
        standings_doc "call_at upstream_404 301040"]
      read_through_on_miss [OF e, of "call_at upstream_doc 1000" "Schedule ''2024-01-15''"
        "\<lparr>ok = True, status = 200, statusText = ''OK'', json = Inr standings_doc\<rparr>"
        standings_doc "call_on ''2024-01-16'' upstream_404 2000"]
    by (simp add: call_at_def call_on_def upstream_doc_def query_url_def NHL_API_BASE_def
        CACHE_TTL_def)
qed



subsection \<open>Failures\<close>




lemma cache_get_other_key:
  "k' \<noteq> k \<Longrightarrow> cache (snd (cache_get mc k t)) k' = cache mc k'"
  by (simp add: cache_get_def split: option.splits)

lemma fst_cache_get_cong:
  "cache mc k = cache mc' k \<Longrightarrow> fst (cache_get mc k t) = fst (cache_get mc' k t)"
  by (simp add: cache_get_def split: option.splits)

subsection \<open>Keys and TTLs\<close>

text \<open>
  Claim C5: when \<open>getLiveScores\<close> on day \<open>d\<close> and then \<open>getSchedule(d)\<close> both reach the
  upstream and succeed, both ask for the same URL, and the cache then holds two entries:
  the first document under \<open>"live-scores:" + d\<close>, expiring 30 000 ms after it was
  stored, and the second under \<open>"schedule:" + d\<close>, a different key, expiring 300 000 ms
  after it was stored.
\<close>

theorem ttl_differentiation:
  assumes miss1: "\<not> truthy (fst (cache_get (store w) (''live-scores:'' @ today e1) (t_get e1)))"
    and miss2: "\<not> truthy (fst (cache_get (store w) (''schedule:'' @ today e1) (t_get e2)))"
    and up1: "fetch e1 (NHL_API_BASE @ ''/schedule/'' @ today e1) = Resolved r1"
      "ok r1" "json r1 = Inr d1"
    and up2: "fetch e2 (NHL_API_BASE @ ''/schedule/'' @ today e1) = Resolved r2"
      "ok r2" "json r2 = Inr d2"
  shows "cache (store (snd (getSchedule e2 (today e1) (snd (getLiveScores e1 w)))))
             (''live-scores:'' @ today e1)
           = Some \<lparr>data = d1, expiresAt = t_set e1 + 30000\<rparr> \<and>
         cache (store (snd (getSchedule e2 (today e1) (snd (getLiveScores e1 w)))))
             (''schedule:'' @ today e1)
           = Some \<lparr>data = d2, expiresAt = t_set e2 + 300000\<rparr> \<and>
         ''live-scores:'' @ today e1 \<noteq> ''schedule:'' @ today e1 \<and>
         requests (snd (getSchedule e2 (today e1) (snd (getLiveScores e1 w))))
           = (NHL_API_BASE @ ''/schedule/'' @ today e1)
             # (NHL_API_BASE @ ''/schedule/'' @ today e1) # requests w"
proof -
  let ?lk = "''live-scores:'' @ today e1" and ?sk = "''schedule:'' @ today e1"
  let ?ep = "''/schedule/'' @ today e1"
  let ?mc1 = "cache_set (snd (cache_get (store w) ?lk (t_get e1))) ?lk d1 30000 (t_set e1)"
  have ne: "?lk \<noteq> ?sk"
    by simp
  have f1: "fst (fetchNHL (fetch e1) ?ep (requests w)) = Inr d1"
    using up1 by (simp add: fetchNHL_ok)
  have first: "getLiveScores e1 w =
      (Inr d1, \<lparr>store = ?mc1, requests = (NHL_API_BASE @ ?ep) # requests w\<rparr>)"
    using read_through_miss_ok [OF miss1 f1, of "LIVE_SCORES CACHE_TTL"]
      orchestrate_read_through [of e1 LiveScores w]
    by (simp add: CACHE_TTL_def)
  have "cache ?mc1 ?sk = cache (store w) ?sk"
    using ne by (simp add: cache_set_def cache_get_other_key)
  then have "fst (cache_get ?mc1 ?sk (t_get e2)) = fst (cache_get (store w) ?sk (t_get e2))"
    by (rule fst_cache_get_cong)
  with miss2 first
  have m2: "\<not> truthy (fst (cache_get (store (snd (getLiveScores e1 w))) ?sk (t_get e2)))"
    by simp
  have f2: "fst (fetchNHL (fetch e2) ?ep (requests (snd (getLiveScores e1 w)))) = Inr d2"
    using up2 by (simp add: fetchNHL_ok)
  have second: "getSchedule e2 (today e1) (snd (getLiveScores e1 w)) =
      (Inr d2, \<lparr>store = cache_set (snd (cache_get ?mc1 ?sk (t_get e2))) ?sk d2 300000 (t_set e2),
                requests = (NHL_API_BASE @ ?ep) # (NHL_API_BASE @ ?ep) # requests w\<rparr>)"
    using read_through_miss_ok [OF m2 f2, of "SCHEDULE CACHE_TTL"]
      orchestrate_read_through [of e2 "Schedule (today e1)" "snd (getLiveScores e1 w)"] first
    by (simp add: CACHE_TTL_def)
  have live: "cache (snd (cache_get ?mc1 ?sk (t_get e2))) ?lk
      = Some \<lparr>data = d1, expiresAt = t_set e1 + 30000\<rparr>"
    using ne by (simp add: cache_get_other_key) (simp add: cache_set_def)
  show ?thesis
    using second live ne by (simp add: cache_set_def)
qed

theorem ttl_differentiation_witness:
  "cache (store (snd (getSchedule (call_at upstream_doc 2000) ''2024-01-15''
                        (snd (getLiveScores (call_at upstream_doc 1000) cold)))))
       ''live-scores:2024-01-15''
     = Some \<lparr>data = standings_doc, expiresAt = 31040\<rparr> \<and>
   cache (store (snd (getSchedule (call_at upstream_doc 2000) ''2024-01-15''
                        (snd (getLiveScores (call_at upstream_doc 1000) cold)))))
       ''schedule:2024-01-15''
     = Some \<lparr>data = standings_doc, expiresAt = 302040\<rparr> \<and>
   requests (snd (getSchedule (call_at upstream_doc 2000) ''2024-01-15''
                    (snd (getLiveScores (call_at upstream_doc 1000) cold))))
     = [''https://api-web.nhle.com/v1/schedule/2024-01-15'',
        ''https://api-web.nhle.com/v1/schedule/2024-01-15'']"
proof -
  have m1: "\<not> truthy (fst (cache_get (store cold)
      (''live-scores:'' @ today (call_at upstream_doc 1000)) (t_get (call_at upstream_doc 1000))))"
    by (simp add: concrete_defs cache_get_def)
  have m2: "\<not> truthy (fst (cache_get (store cold)
      (''schedule:'' @ today (call_at upstream_doc 1000)) (t_get (call_at upstream_doc 2000))))"
    by (simp add: concrete_defs cache_get_def)
  have u1: "fetch (call_at upstream_doc 1000)
        (NHL_API_BASE @ ''/schedule/'' @ today (call_at upstream_doc 1000))
      = Resolved \<lparr>ok = True, status = 200, statusText = ''OK'', json = Inr standings_doc\<rparr>"
    by (simp add: call_at_def upstream_doc_def)
  have u2: "fetch (call_at upstream_doc 2000)
        (NHL_API_BASE @ ''/schedule/'' @ today (call_at upstream_doc 1000))
      = Resolved \<lparr>ok = True, status = 200, statusText = ''OK'', json = Inr standings_doc\<rparr>"
    by (simp add: call_at_def upstream_doc_def)
  have c: "requests cold = []" "today (call_at upstream_doc 1000) = ''2024-01-15''"
    "t_set (call_at upstream_doc 1000) = 1040" "t_set (call_at upstream_doc 2000) = 2040"
    by (simp_all add: concrete_defs call_at_def)
  show ?thesis
    using ttl_differentiation [OF m1 m2 u1 _ _ u2, of standings_doc standings_doc]
    by (simp add: c NHL_API_BASE_def)
qed

subsection \<open>Falsy values\<close>

text \<open>
  Claim C10, as stated, has \<open>get\<close> return for every stored falsy value what it returns
  for a key that was never set. \<open>get\<close> returns \<^verbatim>\<open>entry.data\<close>: for a stored \<^verbatim>\<open>0\<close> that
  is \<^verbatim>\<open>0\<close>, and for a key never set it is \<^verbatim>\<open>null\<close>.
\<close>

theorem falsy_value_returned_counterexample:
  "fst (cache_get (cache_set fresh_cache ''k'' (JNumber 0) 1000 0) ''k'' 0)
     \<noteq> fst (cache_get (cache_set fresh_cache ''k'' (JNumber 0) 1000 0) ''never-set'' 0)"
  by (simp add: cache_get_def cache_set_def concrete_defs)

text \<open>
  Claim C10, amended: for every key \<open>k\<close> whose entry holds a falsy value, \<open>get(k)\<close> returns
  that value itself while the entry is unexpired, and \<^verbatim>\<open>null\<close> afterwards; when the value
  is \<^verbatim>\<open>null\<close>, that is at every clock reading the result for a key with no entry, and
  when it is not, the result while unexpired differs from that for a key with no entry; and
  when \<open>k\<close> is the key of a cached function's call, the hit test takes the entry for a
  miss, so the call goes to the upstream, within the TTL too.
\<close>

theorem falsy_entry_is_miss:
  assumes "cache mc k = Some entry"
    and "\<not> truthy (data entry)"
  shows "(now \<le> expiresAt entry \<longrightarrow> fst (cache_get mc k now) = data entry) \<and>
         (now > expiresAt entry \<longrightarrow> fst (cache_get mc k now) = JNull) \<and>
         (data entry = JNull \<and> cache mc k0 = None \<longrightarrow>
            fst (cache_get mc k now) = fst (cache_get mc k0 now)) \<and>
         (data entry \<noteq> JNull \<and> now \<le> expiresAt entry \<and> cache mc k0 = None \<longrightarrow>
            fst (cache_get mc k now) \<noteq> fst (cache_get mc k0 now)) \<and>
         (store w = mc \<and> query_key q (today e) = k \<longrightarrow>
            requests (snd (orchestrate e q w)) = query_url q (today e) # requests w)"
proof -
  have get: "fst (cache_get mc k t) = (if t \<le> expiresAt entry then data entry else JNull)" for t
    using assms(1) by (simp add: cache_get_present)
  have null: "fst (cache_get mc k now) = fst (cache_get mc k0 now)"
    if "data entry = JNull" "cache mc k0 = None"
    using that get [of now] by (simp add: cache_get_absent)
  have other: "fst (cache_get mc k now) \<noteq> fst (cache_get mc k0 now)"
    if "data entry \<noteq> JNull" "now \<le> expiresAt entry" "cache mc k0 = None"
    using that get [of now] by (simp add: cache_get_absent)
  have call: "requests (snd (orchestrate e q w)) = query_url q (today e) # requests w"
    if "store w = mc" "query_key q (today e) = k"
  proof -
    have "\<not> truthy (fst (cache_get (store w) (query_key q (today e)) (t_get e)))"
      using that assms(2) get [of "t_get e"] by simp
    then show ?thesis
      by (simp add: orchestrate_read_through read_through_miss_log query_url_def)
  qed
  from get [of now] null other call show ?thesis
    by simp
qed

theorem falsy_entry_is_miss_witness:
  "fst (cache_get (cache_set fresh_cache ''k'' (JNumber 0) 1000 0) ''k'' 1000) = JNumber 0 \<and>
   fst (cache_get (cache_set fresh_cache ''k'' (JNumber 0) 1000 0) ''k'' 1001) = JNull \<and>
   fst (cache_get (cache_set fresh_cache ''schedule:2024-01-15'' JNull 300000 1000)
          ''schedule:2024-01-15'' 2000)
     = fst (cache_get (cache_set fresh_cache ''schedule:2024-01-15'' JNull 300000 1000)
          ''never-set'' 2000) \<and>
   requests (snd (orchestrate (call_at upstream_null 2000) (Schedule ''2024-01-15'')
       (cold\<lparr>store := cache_set fresh_cache ''schedule:2024-01-15'' JNull 300000 1000\<rparr>)))
     = [''https://api-web.nhle.com/v1/schedule/2024-01-15'']"
proof -
  let ?zero = "cache_set fresh_cache ''k'' (JNumber 0) 1000 0"
  let ?mc = "cache_set fresh_cache ''schedule:2024-01-15'' JNull 300000 1000"
  let ?w = "cold\<lparr>store := ?mc\<rparr>"
  have z: "cache ?zero ''k'' = Some \<lparr>data = JNumber 0, expiresAt = 1000\<rparr>"
    "\<not> truthy (data \<lparr>data = JNumber 0, expiresAt = 1000\<rparr>)"
    by (simp_all add: cache_set_def)
  have a: "cache ?mc ''schedule:2024-01-15'' = Some \<lparr>data = JNull, expiresAt = 301000\<rparr>"
    "\<not> truthy (data \<lparr>data = JNull, expiresAt = 301000\<rparr>)"
    by (simp_all add: cache_set_def)
  have c: "cache ?mc ''never-set'' = None" "requests ?w = []" "store ?w = ?mc"
    by (simp_all add: cache_set_def concrete_defs)
  show ?thesis
    using c
      falsy_entry_is_miss [OF z, of 1000 "''never-set''" ?w "Schedule ''2024-01-15''"
        "call_at upstream_null 2000"]
      falsy_entry_is_miss [OF z, of 1001 "''never-set''" ?w "Schedule ''2024-01-15''"
        "call_at upstream_null 2000"]
      falsy_entry_is_miss [OF a, of 2000 "''never-set''" ?w "Schedule ''2024-01-15''"
        "call_at upstream_null 2000"]
    by (auto simp add: query_url_def NHL_API_BASE_def call_at_def)
qed

subsection \<open>Team lookup\<close>

lemma toLowerCase_BOS: "toLowerCase ''BOS'' = ''bos''"
  by code_simp

lemma toLowerCase_bos: "toLowerCase ''bos'' = ''bos''"
  by code_simp

lemma toLowerCase_TOR: "toLowerCase ''TOR'' = ''tor''"
  by code_simp

lemma toLowerCase_xyz: "toLowerCase ''xyz'' = ''xyz''"
  by code_simp

lemma team_is_truthy: "teamAbbrev_default t = Inr (JString s) \<Longrightarrow> truthy t"
  by (cases t) (simp_all add: teamAbbrev_default_def)

lemma team_matches_string:
  "teamAbbrev_default t = Inr (JString s) \<Longrightarrow>
   team_matches abbrev t = Inr (toLowerCase s = toLowerCase abbrev)"
  by (simp add: team_matches_def)

lemma array_find_none:
  "\<forall>t\<in>set ts. f t = Inr False \<Longrightarrow> array_find f ts = Inr JUndefined"
  by (induction ts) simp_all

lemma array_find_first:
  assumes "\<forall>t\<in>set ts. \<exists>b. f t = Inr b" and "\<exists>t\<in>set ts. f t = Inr True"
  shows "\<exists>r\<in>set ts. array_find f ts = Inr r \<and> f r = Inr True"
  using assms 
proof (induction ts)
  case Nil
  then show ?case by simp
next
  case (Cons t ts)
  from Cons.prems(1) obtain b where b: "f t = Inr b"
    by auto
  show ?case
  proof (cases b)
    case True
    with b show ?thesis by simp
  next
    case False
    with b Cons.prems have "\<forall>t\<in>set ts. \<exists>b. f t = Inr b" "\<exists>t\<in>set ts. f t = Inr True"
      by auto
    then have "\<exists>r\<in>set ts. array_find f ts = Inr r \<and> f r = Inr True"
      by (rule Cons.IH)
    with b False show ?thesis by simp
  qed
qed

lemma getTeamStats_scan:
  assumes "fst (getStandings e w) = Inr doc"
    and "property doc ''standings'' = Inr (JArray ts)"
  shows "fst (getTeamStats e abbrev w) =
     (case array_find (team_matches abbrev) ts of
        Inl err \<Rightarrow> Inl err
      | Inr team \<Rightarrow> Inr (if truthy team then team else JNull))"
  using assms
  by (cases "getStandings e w") (simp add: getTeamStats_def split: sum.splits)

lemma toLowerCase_Bos: "toLowerCase ''Bos'' = ''bos''"
  by code_simp

lemma array_find_split:
  "\<forall>u\<in>set pre. f u = Inr False \<Longrightarrow> f r = Inr True \<Longrightarrow>
   array_find f (pre @ r # post) = Inr r"
  by (induction pre) simp_all

text \<open>
  Claim C6, as the specification states it, has both calls return the entry of the team
  whose abbreviation is \<open>"BOS"\<close>, for every list that holds one. \<open>find\<close> returns the
  first entry the callback accepts: when an entry with the abbreviation \<open>"Bos"\<close> comes
  first, both calls return that one.
\<close>

theorem first_match_wins_counterexample:
  "fst (getTeamStats (call_at upstream_dup 1000) ''bos'' cold) = Inr bruins_mixed \<and>
   fst (getTeamStats (call_at upstream_dup 1000) ''BOS'' cold) = Inr bruins_mixed \<and>
   teamAbbrev_default bruins = Inr (JString ''BOS'') \<and>
   bruins_mixed \<noteq> bruins"
  by (simp add: getTeamStats_def getStandings_def call_at_def upstream_dup_def concrete_defs
      cache_get_def fetchNHL_def Let_def standings_dup_def bruins_def bruins_mixed_def
      team_matches_def teamAbbrev_default_def toLowerCase_Bos toLowerCase_BOS toLowerCase_bos)

text \<open>
  Claim C6, amended: let \<open>getStandings\<close> return a standings document whose \<open>standings\<close>
  array holds teams, each with a string at \<open>teamAbbrev.default\<close>. \<open>getTeamStats(abbrev)\<close>
  returns the first entry of the array whose abbreviation equals \<open>abbrev\<close> in lower case.
  So when a team of the array has the abbreviation \<open>"BOS"\<close>, \<open>getTeamStats("bos")\<close> and
  \<open>getTeamStats("BOS")\<close> return the same entry: the first one whose abbreviation is
  \<open>"bos"\<close> in lower case. When no abbreviation of the array equals \<open>abbrev\<close> in lower
  case, \<open>getTeamStats(abbrev)\<close> returns \<^verbatim>\<open>null\<close> and does not throw.
\<close>

theorem team_lookup_case_insensitive:
  assumes st: "fst (getStandings e w) = Inr doc"
    and doc: "property doc ''standings'' = Inr (JArray ts)"
    and wf: "\<forall>t\<in>set ts. \<exists>s. teamAbbrev_default t = Inr (JString s)"
  shows "(ts = pre @ r # post \<and>
          (\<forall>u\<in>set pre. \<forall>s. teamAbbrev_default u = Inr (JString s) \<longrightarrow>
             toLowerCase s \<noteq> toLowerCase abbrev) \<and>
          teamAbbrev_default r = Inr (JString s) \<and> toLowerCase s = toLowerCase abbrev \<longrightarrow>
            fst (getTeamStats e abbrev w) = Inr r) \<and>
         (t \<in> set ts \<and> teamAbbrev_default t = Inr (JString ''BOS'') \<longrightarrow>
            (\<exists>pre' r' post'.
               ts = pre' @ r' # post' \<and>
               (\<forall>u\<in>set pre'. \<forall>s. teamAbbrev_default u = Inr (JString s) \<longrightarrow>
                  toLowerCase s \<noteq> ''bos'') \<and>
               (\<exists>s. teamAbbrev_default r' = Inr (JString s) \<and> toLowerCase s = ''bos'') \<and>
               fst (getTeamStats e ''bos'' w) = Inr r' \<and>
               fst (getTeamStats e ''BOS'' w) = Inr r')) \<and>
         ((\<forall>u\<in>set ts. \<forall>s. teamAbbrev_default u = Inr (JString s) \<longrightarrow>
              toLowerCase s \<noteq> toLowerCase abbrev) \<longrightarrow>
            fst (getTeamStats e abbrev w) = Inr JNull)"
proof -
  have first: "fst (getTeamStats e a w) = Inr x"
    if "ts = ys @ x # zs"
      "\<forall>u\<in>set ys. \<forall>s. teamAbbrev_default u = Inr (JString s) \<longrightarrow>
         toLowerCase s \<noteq> toLowerCase a"
      "teamAbbrev_default x = Inr (JString s')" "toLowerCase s' = toLowerCase a"
    for a ys x zs s'
  proof -
    have "\<forall>u\<in>set ys. team_matches a u = Inr False"
      using wf that(1,2) by (fastforce simp add: team_matches_string)
    moreover have "team_matches a x = Inr True"
      using that(3,4) by (simp add: team_matches_string)
    ultimately have "array_find (team_matches a) ts = Inr x"
      unfolding that(1) by (rule array_find_split)
    moreover have "truthy x"
      using that(3) by (rule team_is_truthy)
    ultimately show ?thesis
      by (simp add: getTeamStats_scan [OF st doc])
  qed
  have bos: "\<exists>pre' r' post'.
      ts = pre' @ r' # post' \<and>
      (\<forall>u\<in>set pre'. \<forall>s. teamAbbrev_default u = Inr (JString s) \<longrightarrow>
         toLowerCase s \<noteq> ''bos'') \<and>
      (\<exists>s. teamAbbrev_default r' = Inr (JString s) \<and> toLowerCase s = ''bos'') \<and>
      fst (getTeamStats e ''bos'' w) = Inr r' \<and> fst (getTeamStats e ''BOS'' w) = Inr r'"
    if t: "t \<in> set ts" "teamAbbrev_default t = Inr (JString ''BOS'')"
  proof -
    let ?P = "\<lambda>u. \<exists>s. teamAbbrev_default u = Inr (JString s) \<and> toLowerCase s = ''bos''"
    have "\<exists>u\<in>set ts. ?P u"
      using t toLowerCase_BOS by blast
    then obtain ys x zs where split: "ts = ys @ x # zs" "?P x" "\<forall>u\<in>set ys. \<not> ?P u"
      using split_list_first_prop [of ts ?P] by blast
    from split(2) obtain s' where s': "teamAbbrev_default x = Inr (JString s')"
      "toLowerCase s' = ''bos''"
      by blast
    have none: "\<forall>u\<in>set ys. \<forall>s. teamAbbrev_default u = Inr (JString s) \<longrightarrow>
        toLowerCase s \<noteq> ''bos''"
      using split(3) by blast
    have "fst (getTeamStats e ''bos'' w) = Inr x"
      using first [of ys x zs "''bos''" s'] split(1) none s' by (simp add: toLowerCase_bos)
    moreover have "fst (getTeamStats e ''BOS'' w) = Inr x"
      using first [of ys x zs "''BOS''" s'] split(1) none s' by (simp add: toLowerCase_BOS)
    ultimately show ?thesis
      using split(1) none s' by blast
  qed
  have absent: "fst (getTeamStats e abbrev w) = Inr JNull"
    if no: "\<forall>u\<in>set ts. \<forall>s. teamAbbrev_default u = Inr (JString s) \<longrightarrow>
              toLowerCase s \<noteq> toLowerCase abbrev"
  proof -
    have "\<forall>u\<in>set ts. team_matches abbrev u = Inr False"
      using wf no by (fastforce simp add: team_matches_string)
    then have "array_find (team_matches abbrev) ts = Inr JUndefined"
      by (rule array_find_none)
    then show ?thesis
      by (simp add: getTeamStats_scan [OF st doc])
  qed
  from first [of pre r post abbrev s] bos absent show ?thesis
    by blast
qed

theorem team_lookup_case_insensitive_witness:
  "fst (getTeamStats (call_at upstream_doc 1000) ''bos'' cold) = Inr bruins \<and>
   fst (getTeamStats (call_at upstream_doc 1000) ''BOS'' cold) = Inr bruins \<and>
   fst (getTeamStats (call_at upstream_doc 1000) ''xyz'' cold) = Inr JNull"
proof -
  have st: "fst (getStandings (call_at upstream_doc 1000) cold) = Inr standings_doc"
    by (simp add: getStandings_def call_at_def upstream_doc_def concrete_defs cache_get_def
        fetchNHL_def Let_def)
  have doc: "property standings_doc ''standings'' = Inr (JArray [leafs, bruins])"
    by (simp add: standings_doc_def)
  have ab: "teamAbbrev_default leafs = Inr (JString ''TOR'')"
    "teamAbbrev_default bruins = Inr (JString ''BOS'')"
    by (simp_all add: teamAbbrev_default_def leafs_def bruins_def)
  have wf: "\<forall>t\<in>set [leafs, bruins]. \<exists>s. teamAbbrev_default t = Inr (JString s)"
    using ab by simp
  have ne: "toLowerCase ''TOR'' \<noteq> ''bos''" "toLowerCase ''TOR'' \<noteq> ''xyz''"
    "toLowerCase ''BOS'' \<noteq> ''xyz''"
    by (simp_all add: toLowerCase_TOR toLowerCase_BOS)
  show ?thesis
    using team_lookup_case_insensitive [OF st doc wf, of "[leafs]" bruins "[]" "''bos''"
        "''BOS''" bruins]
      team_lookup_case_insensitive [OF st doc wf, of "[leafs]" bruins "[]" "''BOS''"
        "''BOS''" bruins]
      team_lookup_case_insensitive [OF st doc wf, of "[leafs]" bruins "[]" "''xyz''"
        "''BOS''" bruins]
      ab ne
    by (auto simp add: toLowerCase_xyz toLowerCase_BOS toLowerCase_bos)
qed

end
